theory Spec2Isabelle
  imports Main
begin

section \<open>The reconnecting socket wrapper of \<^verbatim>\<open>src/web/socket_listener.js\<close>\<close>

text \<open>
  The file defines two classes. \<^verbatim>\<open>SocketListener\<close> owns one WebSocket at a time,
  registers listeners on it and reconnects after every close event.
  \<^verbatim>\<open>StateListener\<close> sits on top of it and turns JSON messages of the shape
  \<^verbatim>\<open>{"event": "state", "data": X}\<close> into calls of one user callback.

  The platform (WebSocket objects, the timer queue, the console, the variables captured
  by closures) is an explicit record that every method takes and returns. Functions
  supplied by the embedding page are opaque: calling one is recorded, what it does is
  outside the program.
\<close>

subsection \<open>Values, events, exceptions\<close>

text \<open>
  A value as \<^verbatim>\<open>JSON.parse\<close> builds it, plus \<^verbatim>\<open>undefined\<close>. The program never looks
  inside a number, so the number type is a parameter. \<open>JObj\<close> lists the own properties
  of the object, each key once.
\<close>

datatype 'n jsval =
    JUndefined
  | JNull
  | JBool bool
  | JNum 'n
  | JStr string
  | JArr "'n jsval list"
  | JObj "(string \<times> 'n jsval) list"

datatype error = SyntaxError | TypeError | ReferenceError

datatype completion = Normal | Throw error

text \<open>
  An event as a listener receives it: its own type and, for a message, the text the
  frame carried (what \<^verbatim>\<open>JSON.parse\<close> gets to read).
\<close>

record event =
  ev_type :: string
  ev_data :: string

text \<open>
  Reading property \<open>k\<close> of a value, for the two keys the program reads (\<^verbatim>\<open>event\<close> and
  \<^verbatim>\<open>data\<close>): \<^verbatim>\<open>null\<close> and \<^verbatim>\<open>undefined\<close> have no properties and the read raises a
  TypeError; an object yields its own property or \<^verbatim>\<open>undefined\<close>; booleans, numbers,
  strings and arrays have no property of either name.
\<close>

fun get_property :: "'n jsval \<Rightarrow> string \<Rightarrow> error + 'n jsval" where
  "get_property JUndefined k = Inl TypeError"
| "get_property JNull k = Inl TypeError"
| "get_property (JObj own) k = (case map_of own k of None \<Rightarrow> Inr JUndefined | Some v \<Rightarrow> Inr v)"
| "get_property v k = Inr JUndefined"

subsection \<open>StateListener\<close>

text \<open>
  Functions handed in by the page are named by a number. \<open>Forward t\<close> is the closure
  \<^verbatim>\<open>function(event) {this.genericEventListener(t, event);}.bind(this)\<close> that
  \<^verbatim>\<open>StateListener.run\<close> builds for each of its three event types.
\<close>

datatype callback = Caller nat | Forward string

text \<open>What a StateListener method lets the outside see, in order.\<close>

datatype 'n notice =
    StateChange nat "'n jsval"  \<comment> \<open>\<^verbatim>\<open>this.stateChangeCallback(state)\<close>\<close>
  | ConsoleInfo "'n jsval"      \<comment> \<open>\<^verbatim>\<open>console.info("No State change callback is defined. ...", state)\<close>\<close>

text \<open>
  The listener of lines 15 to 84. \<open>callbacks = None\<close> is an \<^verbatim>\<open>undefined\<close> callback
  map; a defined one lists its entries in the order \<^verbatim>\<open>for (var prop in callbacks)\<close>
  visits them. \<open>socket\<close> is the handle of the current WebSocket, \<open>None\<close> while the
  field is still \<^verbatim>\<open>undefined\<close>.
\<close>

record SocketListener =
  url :: string
  callbacks :: "(string \<times> callback) list option"
  closed_repeat_delay :: nat
  socket :: "nat option"

text \<open>
  The listener of lines 92 to 133. \<open>stateChangeCallback = None\<close> is an \<^verbatim>\<open>undefined\<close>
  callback. The source's field \<^verbatim>\<open>s\<close> is \<open>socketListener\<close> here.
\<close>

record 'n StateListener =
  listener_url :: string
  stateChangeCallback :: "nat option"
  state :: "'n jsval"
  socketListener :: "SocketListener option"

text \<open>Lines 124 to 132: store the snapshot first, then tell the callback or the console.\<close>

definition handleStateUpdate ::
  "'n jsval \<Rightarrow> 'n StateListener \<Rightarrow> 'n StateListener \<times> 'n notice list" where
  "handleStateUpdate v this =
     (let this' = this\<lparr>state := v\<rparr> in
      case stateChangeCallback this' of
        Some f \<Rightarrow> (this', [StateChange f v])
      | None \<Rightarrow> (this', [ConsoleInfo v]))"

text \<open>
  Lines 110 to 122. \<open>JSON_parse\<close> is the platform's parser: \<open>None\<close> when it raises
  a SyntaxError, the parsed value otherwise.

  The close branch calls \<^verbatim>\<open>handleStateUpdate("closed")\<close> without \<^verbatim>\<open>this.\<close>: a free
  identifier, which no scope of the file binds (the file declares the two classes and
  nothing else), so evaluating it raises a ReferenceError before anything is called.
\<close>

definition genericEventListener ::
  "(string \<Rightarrow> 'n jsval option) \<Rightarrow> string \<Rightarrow> event \<Rightarrow> 'n StateListener
     \<Rightarrow> completion \<times> 'n StateListener \<times> 'n notice list" where
  "genericEventListener JSON_parse type event this =
     (if type = ''message'' \<and> ev_type event = ''message'' then
        (case JSON_parse (ev_data event) of
           None \<Rightarrow> (Throw SyntaxError, this, [])
         | Some json \<Rightarrow>
             (case get_property json ''event'' of
                Inl e \<Rightarrow> (Throw e, this, [])
              | Inr tag \<Rightarrow>
                  if tag = JStr ''state'' then
                    (case get_property json ''data'' of
                       Inl e \<Rightarrow> (Throw e, this, [])
                     | Inr d \<Rightarrow>
                         (case handleStateUpdate d this of
                            (this', out) \<Rightarrow> (Normal, this', out)))
                  else (Normal, this, [])))
      else if type = ''close'' then (Throw ReferenceError, this, [])
      else (Normal, this, []))"

subsection \<open>The platform\<close>

text \<open>
  What a listener variable can hold: a function the caller supplied, or the function
  of lines 46 to 57 that \<^verbatim>\<open>initConnection\<close> builds, bound to the SocketListener.
\<close>

datatype handler = Supplied callback | Reconnect

text \<open>The one task the program ever gives to \<^verbatim>\<open>window.setTimeout\<close>: \<^verbatim>\<open>this.initConnection.bind(this)\<close>.\<close>

datatype task = InitConnection

text \<open>What a SocketListener method, a listener or the event loop lets the outside see.\<close>

datatype observation =
    DebugConnecting string   \<comment> \<open>\<^verbatim>\<open>console.debug("Attempting to connect to {url}...")\<close>\<close>
  | DebugClosed string nat   \<comment> \<open>\<^verbatim>\<open>console.debug("Connection to {url} closed/failed, ... in {delay} seconds.")\<close>\<close>
  | ErrorNoCallbacks         \<comment> \<open>\<^verbatim>\<open>console.error("SocketListener:addListener() no callbacks passed")\<close>\<close>
  | Invoke callback event    \<comment> \<open>a supplied function is called with the event\<close>
  | Uncaught error           \<comment> \<open>an exception left a listener or a timer task; the event loop reports it\<close>

text \<open>
  A WebSocket object: the URL it was made for, its listeners in registration order and
  whether \<^verbatim>\<open>close()\<close> was called on it. Every listener the program registers is the
  closure \<^verbatim>\<open>function(event) { callback(event); }\<close> of line 73, which holds no function
  of its own: it reads the variable \<^verbatim>\<open>callback\<close> of the \<^verbatim>\<open>addListeners\<close> call
  that made it, each time it runs. A listener is therefore its event type and the
  address of that variable.
\<close>

record websocket =
  ws_url :: string
  ws_listeners :: "(string \<times> nat) list"
  ws_close_called :: bool

text \<open>
  The page: the WebSocket objects made so far (a handle is an index), the \<^verbatim>\<open>callback\<close>
  variables of the \<^verbatim>\<open>addListeners\<close> calls made so far (\<open>None\<close> is \<^verbatim>\<open>undefined\<close>), the
  pending timers with their delay in milliseconds, and what was observed.
\<close>

record page =
  sockets :: "websocket list"
  cells :: "handler option list"
  timers :: "(nat \<times> task) list"
  trace :: "observation list"

definition page0 :: page where
  "page0 = \<lparr>sockets = [], cells = [], timers = [], trace = []\<rparr>"

definition emit :: "observation \<Rightarrow> page \<Rightarrow> page" where
  "emit x b = b\<lparr>trace := trace b @ [x]\<rparr>"

text \<open>\<^verbatim>\<open>new WebSocket(url)\<close>: a fresh object without listeners, at the next handle.\<close>

definition new_WebSocket :: "string \<Rightarrow> page \<Rightarrow> nat \<times> page" where
  "new_WebSocket u b =
     (length (sockets b),
      b\<lparr>sockets := sockets b @ [\<lparr>ws_url = u, ws_listeners = [], ws_close_called = False\<rparr>]\<rparr>)"

text \<open>\<^verbatim>\<open>socket.addEventListener(p, function(event) { callback(event); })\<close>, the variable at \<open>c\<close>.\<close>

definition addEventListener :: "nat \<Rightarrow> string \<Rightarrow> nat \<Rightarrow> page \<Rightarrow> page" where
  "addEventListener h p c b =
     (if h < length (sockets b)
      then b\<lparr>sockets := (sockets b)
             [h := (sockets b ! h)\<lparr>ws_listeners := ws_listeners (sockets b ! h) @ [(p, c)]\<rparr>]\<rparr>
      else b)"

text \<open>\<^verbatim>\<open>window.setTimeout(f, ms)\<close>.\<close>

definition setTimeout :: "task \<Rightarrow> nat \<Rightarrow> page \<Rightarrow> page" where
  "setTimeout f ms b = b\<lparr>timers := timers b @ [(ms, f)]\<rparr>"

subsection \<open>SocketListener\<close>

text \<open>
  The loop of lines 71 to 76. \<^verbatim>\<open>var callback\<close> is scoped to the function, not to the
  loop body: one variable (at address \<open>c\<close>) serves every iteration, each iteration
  overwrites it, and every closure registered by this call reads that same variable.
  With \<^verbatim>\<open>this.socket\<close> undefined the first iteration raises a TypeError.
\<close>

fun attach :: "nat option \<Rightarrow> nat \<Rightarrow> (string \<times> handler) list \<Rightarrow> page \<Rightarrow> completion \<times> page" where
  "attach sk c [] b = (Normal, b)"
| "attach sk c ((p, f) # rest) b =
     (let b1 = b\<lparr>cells := (cells b)[c := Some f]\<rparr> in
      case sk of
        None \<Rightarrow> (Throw TypeError, b1)
      | Some h \<Rightarrow> attach sk c rest (addEventListener h p c b1))"

text \<open>
  Lines 66 to 77. With a defined map the variable \<^verbatim>\<open>callback\<close> of this call gets an
  address of its own, \<^verbatim>\<open>undefined\<close> at first, and the loop runs. With an undefined map
  the call logs and returns before any closure could capture the variable, so none is kept.
\<close>

definition addListeners ::
  "(string \<times> handler) list option \<Rightarrow> SocketListener \<Rightarrow> page \<Rightarrow> completion \<times> page" where
  "addListeners cbs this b =
     (case cbs of
        None \<Rightarrow> (Normal, emit ErrorNoCallbacks b)
      | Some m \<Rightarrow> attach (socket this) (length (cells b)) m (b\<lparr>cells := cells b @ [None]\<rparr>))"

text \<open>The caller's map as \<^verbatim>\<open>initConnection\<close> passes it on (line 41).\<close>

definition supplied :: "(string \<times> callback) list option \<Rightarrow> (string \<times> handler) list option" where
  "supplied cbs = map_option (map (\<lambda>(p, f). (p, Supplied f))) cbs"

text \<open>
  Lines 36 to 59. \<open>accepts\<close> says which URLs the platform's WebSocket constructor
  takes; for any other it raises a SyntaxError. The string method \<^verbatim>\<open>formatUnicorn\<close>
  is the library the file's header requires and is taken to be loaded.
\<close>

definition initConnection ::
  "(string \<Rightarrow> bool) \<Rightarrow> SocketListener \<Rightarrow> page \<Rightarrow> completion \<times> SocketListener \<times> page" where
  "initConnection accepts this b =
     (let b1 = emit (DebugConnecting (url this)) b in
      if \<not> accepts (url this) then (Throw SyntaxError, this, b1)
      else
        (case new_WebSocket (url this) b1 of
           (h, b2) \<Rightarrow>
             (let this' = this\<lparr>socket := Some h\<rparr> in
              case addListeners (supplied (callbacks this')) this' b2 of
                (Throw e, b3) \<Rightarrow> (Throw e, this', b3)
              | (Normal, b3) \<Rightarrow>
                  (case addListeners (Some [(''close'', Reconnect)]) this' b3 of
                     (c, b4) \<Rightarrow> (c, this', b4)))))"

text \<open>Lines 22 to 30. When the constructor raises, the caller gets no object.\<close>

definition SocketListener_new ::
  "(string \<Rightarrow> bool) \<Rightarrow> string \<Rightarrow> (string \<times> callback) list option \<Rightarrow> page
     \<Rightarrow> (error + SocketListener) \<times> page" where
  "SocketListener_new accepts u cbs b =
     (case initConnection accepts
             \<lparr>url = u, callbacks = cbs, closed_repeat_delay = 10, socket = None\<rparr> b of
        (Normal, this, b') \<Rightarrow> (Inr this, b')
      | (Throw e, this, b') \<Rightarrow> (Inl e, b'))"

text \<open>Lines 79 to 83.\<close>

definition close :: "SocketListener \<Rightarrow> page \<Rightarrow> page" where
  "close this b =
     (case socket this of
        None \<Rightarrow> b
      | Some h \<Rightarrow>
          if h < length (sockets b)
          then b\<lparr>sockets := (sockets b)[h := (sockets b ! h)\<lparr>ws_close_called := True\<rparr>]\<rparr>
          else b)"

subsection \<open>Events and timers\<close>

text \<open>Lines 46 to 57, the body of the reconnecting close listener.\<close>

definition reconnect :: "SocketListener \<Rightarrow> page \<Rightarrow> page" where
  "reconnect this b =
     setTimeout InitConnection (closed_repeat_delay this * 1000)
       (emit (DebugClosed (url this) (closed_repeat_delay this)) b)"

text \<open>
  One listener runs: it reads its variable and calls what it finds there. Calling
  \<^verbatim>\<open>undefined\<close> raises a TypeError, which the event loop reports.
\<close>

definition call_listener :: "SocketListener \<Rightarrow> event \<Rightarrow> nat \<Rightarrow> page \<Rightarrow> page" where
  "call_listener this ev c b =
     (case (if c < length (cells b) then cells b ! c else None) of
        None \<Rightarrow> emit (Uncaught TypeError) b
      | Some (Supplied f) \<Rightarrow> emit (Invoke f ev) b
      | Some Reconnect \<Rightarrow> reconnect this b)"

fun run_listeners :: "SocketListener \<Rightarrow> event \<Rightarrow> (string \<times> nat) list \<Rightarrow> page \<Rightarrow> page" where
  "run_listeners this ev [] b = b"
| "run_listeners this ev ((p, c) # ls) b =
     run_listeners this ev ls (if p = ev_type ev then call_listener this ev c b else b)"

text \<open>
  The platform delivers event \<open>ev\<close> to the WebSocket at handle \<open>h\<close>: the listeners
  registered for the event's type run in registration order.
\<close>

definition dispatchEvent :: "nat \<Rightarrow> event \<Rightarrow> SocketListener \<Rightarrow> page \<Rightarrow> page" where
  "dispatchEvent h ev this b =
     (if h < length (sockets b) then run_listeners this ev (ws_listeners (sockets b ! h)) b
      else b)"

text \<open>The oldest pending timer fires and its task runs.\<close>

definition fire_timer ::
  "(string \<Rightarrow> bool) \<Rightarrow> SocketListener \<Rightarrow> page \<Rightarrow> SocketListener \<times> page" where
  "fire_timer accepts this b =
     (case timers b of
        [] \<Rightarrow> (this, b)
      | (ms, InitConnection) # ts \<Rightarrow>
          (case initConnection accepts this (b\<lparr>timers := ts\<rparr>) of
             (Normal, this', b') \<Rightarrow> (this', b')
           | (Throw e, this', b') \<Rightarrow> (this', emit (Uncaught e) b')))"

text \<open>
  What can happen to a SocketListener after its construction: the platform delivers
  an event to one of the sockets, a timer fires, or the page calls \<^verbatim>\<open>close()\<close> or
  \<^verbatim>\<open>addListeners\<close> with functions of its own.
\<close>

datatype step =
    Deliver nat event
  | Timeout
  | CallClose
  | CallAddListeners "(string \<times> callback) list option"

fun do_step ::
  "(string \<Rightarrow> bool) \<Rightarrow> step \<Rightarrow> SocketListener \<times> page \<Rightarrow> SocketListener \<times> page" where
  "do_step accepts (Deliver h ev) (this, b) = (this, dispatchEvent h ev this b)"
| "do_step accepts Timeout (this, b) = fire_timer accepts this b"
| "do_step accepts CallClose (this, b) = (this, close this b)"
| "do_step accepts (CallAddListeners m) (this, b) = (this, snd (addListeners (supplied m) this b))"

fun do_steps ::
  "(string \<Rightarrow> bool) \<Rightarrow> step list \<Rightarrow> SocketListener \<times> page \<Rightarrow> SocketListener \<times> page" where
  "do_steps accepts [] cfg = cfg"
| "do_steps accepts (x # xs) cfg = do_steps accepts xs (do_step accepts x cfg)"

subsection \<open>StateListener: construction and run\<close>

text \<open>Lines 94 to 98. The constructor touches nothing but the new object.\<close>

definition StateListener_new ::
  "string \<Rightarrow> nat option \<Rightarrow> page \<Rightarrow> 'n StateListener \<times> page" where
  "StateListener_new u f b =
     (\<lparr>listener_url = u, stateChangeCallback = f, state = JObj [], socketListener = None\<rparr>, b)"

text \<open>Lines 100 to 108. When the SocketListener constructor raises, \<^verbatim>\<open>this.s\<close> is not assigned.\<close>

definition run ::
  "(string \<Rightarrow> bool) \<Rightarrow> 'n StateListener \<Rightarrow> page \<Rightarrow> completion \<times> 'n StateListener \<times> page" where
  "run accepts this b =
     (case SocketListener_new accepts (listener_url this)
             (Some [(''open'', Forward ''open''),
                    (''close'', Forward ''close''),
                    (''message'', Forward ''message'')]) b of
        (Inr sl, b') \<Rightarrow> (Normal, this\<lparr>socketListener := Some sl\<rparr>, b')
      | (Inl e, b') \<Rightarrow> (Throw e, this, b'))"

subsection \<open>The wiring of a page, for the proofs\<close>

text \<open>
  How many of the listeners \<open>ls\<close> answer a close event by scheduling a reconnect, given
  the contents \<open>cs\<close> of the captured variables.
\<close>

definition reconnecting :: "handler option list \<Rightarrow> (string \<times> nat) list \<Rightarrow> nat" where
  "reconnecting cs ls = length (filter (\<lambda>(p, c). p = ''close'' \<and> cs ! c = Some Reconnect) ls)"

text \<open>Every listener of \<open>ls\<close> reads a variable that exists.\<close>

definition bound :: "handler option list \<Rightarrow> (string \<times> nat) list \<Rightarrow> bool" where
  "bound cs ls \<longleftrightarrow> (\<forall>(p, c) \<in> set ls. c < length cs)"

text \<open>
  The invariant of a constructed SocketListener: its URL is one the platform takes, the
  delay is the constructor's 10, the current socket exists, and every socket made so far
  carries exactly one reconnecting close listener.
\<close>

definition wired :: "(string \<Rightarrow> bool) \<Rightarrow> SocketListener \<Rightarrow> page \<Rightarrow> bool" where
  "wired accepts this b \<longleftrightarrow>
     accepts (url this) \<and> closed_repeat_delay this = 10 \<and>
     (\<exists>h. socket this = Some h \<and> h < length (sockets b)) \<and>
     (\<forall>w \<in> set (sockets b). bound (cells b) (ws_listeners w)
                            \<and> reconnecting (cells b) (ws_listeners w) = 1)"

text \<open>
  The listeners and the variables that one run of \<^verbatim>\<open>initConnection\<close> adds, the first new
  variable at address \<open>n\<close>. An undefined map makes the first \<^verbatim>\<open>addListeners\<close> call return
  without keeping a variable; a defined one leaves its last entry in the shared variable.
\<close>

definition fresh_listeners :: "(string \<times> callback) list option \<Rightarrow> nat \<Rightarrow> (string \<times> nat) list" where
  "fresh_listeners cbs n =
     (case cbs of
        None \<Rightarrow> [(''close'', n)]
      | Some m \<Rightarrow> map (\<lambda>(p, f). (p, n)) m @ [(''close'', Suc n)])"

definition fresh_cells :: "(string \<times> callback) list option \<Rightarrow> handler option list" where
  "fresh_cells cbs =
     (case cbs of
        None \<Rightarrow> [Some Reconnect]
      | Some m \<Rightarrow> [if m = [] then None else Some (Supplied (snd (last m))), Some Reconnect])"

subsection \<open>A sample page\<close>

text \<open>
  A close event, and a SocketListener for \<^verbatim>\<open>wss://x/y\<close> with the callback map
  \<^verbatim>\<open>{close: f1, message: f2}\<close> as its constructor leaves it, with the page around it.
\<close>

definition close_event :: event where
  "close_event = \<lparr>ev_type = ''close'', ev_data = ''''\<rparr>"

definition sample_map :: "(string \<times> callback) list option" where
  "sample_map = Some [(''close'', Caller 1), (''message'', Caller 2)]"

definition sample_listener :: SocketListener where
  "sample_listener =
     \<lparr>url = ''wss://x/y'', callbacks = sample_map, closed_repeat_delay = 10, socket = Some 0\<rparr>"

definition sample_page :: page where
  "sample_page =
     \<lparr>sockets = [\<lparr>ws_url = ''wss://x/y'',
                  ws_listeners = [(''close'', 0), (''message'', 0), (''close'', 1)],
                  ws_close_called = False\<rparr>],
      cells = [Some (Supplied (Caller 2)), Some Reconnect],
      timers = [],
      trace = [DebugConnecting ''wss://x/y'']\<rparr>"

section \<open>Properties\<close>

subsection \<open>What the registration loop leaves behind\<close>

lemma addEventListener_fields [simp]:
  "cells (addEventListener h p c b) = cells b"
  "timers (addEventListener h p c b) = timers b"
  "trace (addEventListener h p c b) = trace b"
  "length (sockets (addEventListener h p c b)) = length (sockets b)"
  by (simp_all add: addEventListener_def)

lemma attach_Some:
  "h < length (sockets b) \<Longrightarrow>
   attach (Some h) c m b =
     (Normal,
      b\<lparr>cells := (if m = [] then cells b else (cells b)[c := Some (snd (last m))]),
        sockets := (sockets b)
          [h := (sockets b ! h)\<lparr>ws_listeners :=
                   ws_listeners (sockets b ! h) @ map (\<lambda>(p, f). (p, c)) m\<rparr>]\<rparr>)"
proof (induction m arbitrary: b)
  case Nil
  then show ?case by simp
next
  case (Cons x m)
  obtain p f where x: "x = (p, f)" by (cases x)
  let ?b1 = "addEventListener h p c (b\<lparr>cells := (cells b)[c := Some f]\<rparr>)"
  have len: "h < length (sockets ?b1)" using Cons.prems by simp
  show ?case
    unfolding x attach.simps Let_def option.case Cons.IH [OF len]
    using Cons.prems by (simp add: addEventListener_def)
qed

lemma initConnection_accepted:
  assumes "accepts (url this)"
  shows "initConnection accepts this b =
    (Normal, this\<lparr>socket := Some (length (sockets b))\<rparr>,
     b\<lparr>sockets := sockets b @
          [\<lparr>ws_url = url this,
            ws_listeners = fresh_listeners (callbacks this) (length (cells b)),
            ws_close_called = False\<rparr>],
       cells := cells b @ fresh_cells (callbacks this),
       trace := trace b @ [DebugConnecting (url this)] @
                (case callbacks this of None \<Rightarrow> [ErrorNoCallbacks] | Some m \<Rightarrow> [])\<rparr>)"
proof (cases "callbacks this")
  case None
  then show ?thesis
    using assms
    by (simp add: initConnection_def new_WebSocket_def addListeners_def supplied_def emit_def
        attach_Some addEventListener_def fresh_listeners_def fresh_cells_def Let_def last_map case_prod_beta comp_def)
next
  case (Some m)
  then show ?thesis
    using assms
    by (simp add: initConnection_def new_WebSocket_def addListeners_def supplied_def emit_def
        attach_Some addEventListener_def fresh_listeners_def fresh_cells_def Let_def last_map case_prod_beta comp_def)
qed

subsection \<open>Counting reconnecting listeners\<close>

lemma bound_append_cells: "bound cs ls \<Longrightarrow> bound (cs @ xs) ls"
  by (auto simp: bound_def)

lemma bound_append [simp]: "bound cs (ls @ ls') \<longleftrightarrow> bound cs ls \<and> bound cs ls'"
  by (auto simp: bound_def)

lemma reconnecting_append [simp]:
  "reconnecting cs (ls @ ls') = reconnecting cs ls + reconnecting cs ls'"
  by (simp add: reconnecting_def)

lemma reconnecting_append_cells:
  "bound cs ls \<Longrightarrow> reconnecting (cs @ xs) ls = reconnecting cs ls"
proof -
  assume b: "bound cs ls"
  have "filter (\<lambda>(p, c). p = ''close'' \<and> (cs @ xs) ! c = Some Reconnect) ls
      = filter (\<lambda>(p, c). p = ''close'' \<and> cs ! c = Some Reconnect) ls"
    using b by (intro filter_cong) (auto simp: bound_def nth_append)
  then show ?thesis by (simp add: reconnecting_def)
qed

lemma reconnecting_same_cell:
  "cs ! n \<noteq> Some Reconnect \<Longrightarrow> reconnecting cs (map (\<lambda>(p, f). (p, n)) m) = 0"
  by (simp add: reconnecting_def filter_empty_conv case_prod_beta)

lemma bound_same_cell: "n < length cs \<Longrightarrow> bound cs (map (\<lambda>(p, f). (p, n)) m)"
  by (auto simp: bound_def)

lemma fresh_bound:
  "bound (cs @ fresh_cells cbs) (fresh_listeners cbs (length cs))"
  by (auto simp: fresh_cells_def fresh_listeners_def bound_def split: option.split)

lemma fresh_reconnecting:
  "reconnecting (cs @ fresh_cells cbs) (fresh_listeners cbs (length cs)) = 1"
proof (cases cbs)
  case None
  then show ?thesis by (simp add: fresh_cells_def fresh_listeners_def reconnecting_def)
next
  case (Some m)
  let ?x = "if m = [] then None else Some (Supplied (snd (last m)))"
  have "(cs @ [?x, Some Reconnect]) ! length cs \<noteq> Some Reconnect" by (simp add: nth_append)
  from reconnecting_same_cell [OF this, of m]
  show ?thesis using Some
    by (simp add: fresh_cells_def fresh_listeners_def) (simp add: reconnecting_def nth_append)
qed

lemma call_listener_fields [simp]:
  "cells (call_listener this ev c b) = cells b"
  "sockets (call_listener this ev c b) = sockets b"
  by (simp_all add: call_listener_def reconnect_def setTimeout_def emit_def
      split: option.split handler.split)

lemma call_listener_timers:
  "c < length (cells b) \<Longrightarrow>
   timers (call_listener this ev c b) =
     timers b @ (if cells b ! c = Some Reconnect
                 then [(closed_repeat_delay this * 1000, InitConnection)] else [])"
  by (simp add: call_listener_def reconnect_def setTimeout_def emit_def
      split: option.split handler.split)

lemma run_listeners_fields [simp]:
  "cells (run_listeners this ev ls b) = cells b"
  "sockets (run_listeners this ev ls b) = sockets b"
  by (induction ls arbitrary: b; auto)+

lemma run_listeners_close_timers:
  "ev_type ev = ''close'' \<Longrightarrow> bound (cells b) ls \<Longrightarrow>
   timers (run_listeners this ev ls b) =
     timers b @ replicate (reconnecting (cells b) ls)
                  (closed_repeat_delay this * 1000, InitConnection)"
proof (induction ls arbitrary: b)
  case Nil
  then show ?case by (simp add: reconnecting_def)
next
  case (Cons x ls)
  obtain p c where x: "x = (p, c)" by (cases x)
  from Cons.prems have c: "c < length (cells b)" and rest: "bound (cells b) ls"
    by (auto simp: x bound_def)
  show ?case
  proof (cases "p = ''close''")
    case True
    have "bound (cells (call_listener this ev c b)) ls" using rest by simp
    from Cons.IH [OF Cons.prems(1) this] show ?thesis
      using True Cons.prems(1) c
      by (simp add: x call_listener_timers reconnecting_def replicate_app_Cons_same)
  next
    case False
    from Cons.IH [OF Cons.prems(1) rest] show ?thesis
      using False Cons.prems(1) by (simp add: x reconnecting_def)
  qed
qed

lemma dispatchEvent_fields [simp]:
  "cells (dispatchEvent h ev this b) = cells b"
  "sockets (dispatchEvent h ev this b) = sockets b"
  by (simp_all add: dispatchEvent_def)

lemma wired_dispatchEvent: "wired accepts this b \<Longrightarrow> wired accepts this (dispatchEvent h ev this b)"
  by (simp add: wired_def)

lemma wired_close_event:
  assumes "wired accepts this b" and "h < length (sockets b)" and "ev_type ev = ''close''"
  shows "timers (dispatchEvent h ev this b) = timers b @ [(10000, InitConnection)]"
proof -
  have w: "sockets b ! h \<in> set (sockets b)" using assms(2) by simp
  with assms(1) have "bound (cells b) (ws_listeners (sockets b ! h))"
    and "reconnecting (cells b) (ws_listeners (sockets b ! h)) = 1"
    and "closed_repeat_delay this = 10"
    by (auto simp: wired_def)
  then show ?thesis
    using assms(2,3) by (simp add: dispatchEvent_def run_listeners_close_timers)
qed

subsection \<open>The invariant holds after construction and after every step\<close>

lemma wired_initConnection:
  assumes "accepts (url this)" and "closed_repeat_delay this = 10"
    and "\<forall>w \<in> set (sockets b). bound (cells b) (ws_listeners w)
                            \<and> reconnecting (cells b) (ws_listeners w) = 1"
    and "initConnection accepts this b = (c, this', b')"
  shows "c = Normal \<and> wired accepts this' b'"
proof -
  from assms(4) have c: "c = Normal"
    and this': "this' = this\<lparr>socket := Some (length (sockets b))\<rparr>"
    and b': "b' = b\<lparr>sockets := sockets b @
          [\<lparr>ws_url = url this,
            ws_listeners = fresh_listeners (callbacks this) (length (cells b)),
            ws_close_called = False\<rparr>],
       cells := cells b @ fresh_cells (callbacks this),
       trace := trace b @ [DebugConnecting (url this)] @
                (case callbacks this of None \<Rightarrow> [ErrorNoCallbacks] | Some m \<Rightarrow> [])\<rparr>"
    unfolding initConnection_accepted [of accepts this, OF assms(1)] by simp_all
  have "wired accepts this' b'"
    unfolding wired_def this' b'
    using assms(1,2,3)
    by (auto simp: fresh_bound fresh_reconnecting bound_append_cells reconnecting_append_cells)
  with c show ?thesis by simp
qed

lemma wired_new:
  assumes "SocketListener_new accepts u cbs page0 = (Inr this, b)"
  shows "wired accepts this b \<and> url this = u \<and> callbacks this = cbs"
proof -
  let ?t = "\<lparr>url = u, callbacks = cbs, closed_repeat_delay = 10, socket = None\<rparr>"
  obtain c this' b' where ic: "initConnection accepts ?t page0 = (c, this', b')"
    by (cases "initConnection accepts ?t page0") auto
  have acc: "accepts u"
  proof (rule ccontr)
    assume "\<not> accepts u"
    then have "fst (initConnection accepts ?t page0) = Throw SyntaxError"
      by (simp add: initConnection_def Let_def)
    with assms show False by (simp add: SocketListener_new_def split: prod.splits)
  qed
  then have a: "accepts (url ?t)" by simp
  have "c = Normal \<and> wired accepts this' b'"
    by (rule wired_initConnection [of accepts ?t, OF a _ _ ic]) (simp_all add: page0_def)
  moreover have "this' = ?t\<lparr>socket := Some (length (sockets page0))\<rparr>"
    using ic unfolding initConnection_accepted [of accepts ?t, OF a] by simp
  ultimately show ?thesis using assms ic by (auto simp: SocketListener_new_def)
qed

lemma wired_fire_timer:
  assumes "wired accepts this b" and "fire_timer accepts this b = (this', b')"
  shows "wired accepts this' b'"
proof (cases "timers b")
  case Nil
  with assms show ?thesis by (simp add: fire_timer_def)
next
  case (Cons t ts)
  obtain ms k where t: "t = (ms, k)" by (cases t)
  have k: "k = InitConnection" by (cases k)
  obtain c this1 b1 where ic: "initConnection accepts this (b\<lparr>timers := ts\<rparr>) = (c, this1, b1)"
    by (cases "initConnection accepts this (b\<lparr>timers := ts\<rparr>)") auto
  have "c = Normal \<and> wired accepts this1 b1"
    by (rule wired_initConnection [of accepts this, OF _ _ _ ic]) (use assms(1) in \<open>auto simp: wired_def\<close>)
  with assms(2) ic Cons t k show ?thesis by (simp add: fire_timer_def)
qed

lemma close_listeners [simp]:
  "map ws_listeners (sockets (close this b)) = map ws_listeners (sockets b)"
  "cells (close this b) = cells b"
  "timers (close this b) = timers b"
  "trace (close this b) = trace b"
  "length (sockets (close this b)) = length (sockets b)"
  by (simp_all add: close_def map_update list_update_same_conv split: option.split)

lemma wired_listeners:
  "wired accepts this b \<longleftrightarrow>
     accepts (url this) \<and> closed_repeat_delay this = 10 \<and>
     (\<exists>h. socket this = Some h \<and> h < length (sockets b)) \<and>
     (\<forall>ls \<in> set (map ws_listeners (sockets b)). bound (cells b) ls
                            \<and> reconnecting (cells b) ls = 1)"
  by (auto simp: wired_def)

lemma wired_close: "wired accepts this b \<Longrightarrow> wired accepts this (close this b)"
  unfolding wired_listeners by simp

lemma addListeners_supplied:
  assumes "socket this = Some h" and "h < length (sockets b)"
  shows "addListeners (supplied cbs) this b =
    (Normal,
     case cbs of
       None \<Rightarrow> emit ErrorNoCallbacks b
     | Some m \<Rightarrow>
         b\<lparr>cells := cells b @ [if m = [] then None else Some (Supplied (snd (last m)))],
           sockets := (sockets b)
             [h := (sockets b ! h)\<lparr>ws_listeners :=
                     ws_listeners (sockets b ! h) @ map (\<lambda>(p, f). (p, length (cells b))) m\<rparr>]\<rparr>)"
  using assms
  by (cases cbs)
     (simp_all add: addListeners_def supplied_def attach_Some last_map case_prod_unfold comp_def)

lemma wired_addListeners:
  assumes "wired accepts this b"
  shows "wired accepts this (snd (addListeners (supplied cbs) this b))"
proof -
  from assms obtain h where h: "socket this = Some h" "h < length (sockets b)"
    by (auto simp: wired_def)
  show ?thesis
  proof (cases cbs)
    case None
    with assms show ?thesis
      by (simp add: addListeners_supplied [OF h] emit_def wired_def)
  next
    case (Some m)
    let ?x = "if m = [] then None else Some (Supplied (snd (last m)))"
    let ?cs = "cells b @ [?x]"
    let ?w = "(sockets b ! h)\<lparr>ws_listeners :=
                 ws_listeners (sockets b ! h) @ map (\<lambda>(p, f). (p, length (cells b))) m\<rparr>"
    have old: "\<forall>w \<in> set (sockets b). bound ?cs (ws_listeners w)
                 \<and> reconnecting ?cs (ws_listeners w) = 1"
      using assms by (auto simp: wired_def bound_append_cells reconnecting_append_cells)
    have hw: "sockets b ! h \<in> set (sockets b)" using h by simp
    have "?cs ! length (cells b) \<noteq> Some Reconnect" by simp
    then have zero: "reconnecting ?cs (map (\<lambda>(p, f). (p, length (cells b))) m) = 0"
      by (rule reconnecting_same_cell)
    have bnd: "bound ?cs (map (\<lambda>(p, f). (p, length (cells b))) m)"
      by (rule bound_same_cell) simp
    have new: "bound ?cs (ws_listeners ?w) \<and> reconnecting ?cs (ws_listeners ?w) = 1"
      using old hw zero bnd by simp
    have "\<forall>w \<in> set ((sockets b)[h := ?w]). bound ?cs (ws_listeners w)
                 \<and> reconnecting ?cs (ws_listeners w) = 1"
      using old new set_update_subset_insert [of "sockets b" h ?w] by blast
    then show ?thesis
      using assms h Some by (simp add: addListeners_supplied [OF h] wired_def)
  qed
qed

lemma wired_do_step:
  "wired accepts this b \<Longrightarrow> do_step accepts x (this, b) = (this', b') \<Longrightarrow> wired accepts this' b'"
  by (cases x) (auto simp: wired_dispatchEvent wired_close wired_addListeners wired_fire_timer)

lemma wired_do_steps:
  "wired accepts this b \<Longrightarrow> do_steps accepts xs (this, b) = (this', b') \<Longrightarrow> wired accepts this' b'"
proof (induction xs arbitrary: this b)
  case Nil
  then show ?case by simp
next
  case (Cons x xs)
  obtain this1 b1 where s: "do_step accepts x (this, b) = (this1, b1)"
    by (cases "do_step accepts x (this, b)")
  from wired_do_step [OF Cons.prems(1) s] Cons.IH [of this1 b1] Cons.prems(2) s
  show ?case by simp
qed

subsection \<open>The wiring, stated without the invariant\<close>

lemma addListeners_undefined:
  "addListeners None this b = (Normal, emit ErrorNoCallbacks b)"
  by (simp add: addListeners_def)

lemma initConnection_registers_reconnect:
  assumes "accepts (url this)"
    and "initConnection accepts this b = (c, this', b')"
  shows "c = Normal \<and> socket this' = Some (length (sockets b))
       \<and> length (sockets b') = Suc (length (sockets b))
       \<and> reconnecting (cells b') (ws_listeners (sockets b' ! length (sockets b))) = 1"
  using assms(2)
  unfolding initConnection_accepted [of accepts this, OF assms(1)]
  by (auto simp: fresh_reconnecting)

subsection \<open>Reconnecting\<close>

text \<open>
  C3. Take a SocketListener as its constructor returned it and let anything happen to
  it, in any order and any number of times: events delivered to any of its sockets,
  timers firing, the page calling \<^verbatim>\<open>close()\<close> or \<^verbatim>\<open>addListeners\<close>. A close event then
  delivered to any one of its sockets adds exactly one timer to the pending ones: the
  task is \<^verbatim>\<open>initConnection\<close> and the delay is 10000 milliseconds. Nothing counts the
  attempts, so this holds after every history, however long.
\<close>

theorem close_event_schedules_one_reconnect:
  assumes "SocketListener_new accepts u cbs page0 = (Inr this0, b0)"
    and "do_steps accepts history (this0, b0) = (this, b)"
    and "h < length (sockets b)"
    and "ev_type ev = ''close''"
  shows "timers (dispatchEvent h ev this b) = timers b @ [(10000, InitConnection)]"
proof -
  from wired_new [OF assms(1)] have "wired accepts this0 b0" by simp
  from wired_do_steps [OF this assms(2)] have "wired accepts this b" .
  from wired_close_event [OF this assms(3,4)] show ?thesis .
qed

theorem close_event_schedules_one_reconnect_witness:
  "(let history = [Deliver 0 close_event, Timeout, CallClose, Deliver 0 close_event];
        cfg = do_steps (\<lambda>u. True) history (sample_listener, sample_page)
    in SocketListener_new (\<lambda>u. True) ''wss://x/y'' sample_map page0
         = (Inr sample_listener, sample_page)
     \<and> 1 < length (sockets (snd cfg))
     \<and> ev_type close_event = ''close''
     \<and> timers (snd cfg) = [(10000, InitConnection)]
     \<and> timers (dispatchEvent 1 close_event (fst cfg) (snd cfg))
         = [(10000, InitConnection), (10000, InitConnection)])"
proof -
  let ?history = "[Deliver 0 close_event, Timeout, CallClose, Deliver 0 close_event]"
  let ?cfg = "do_steps (\<lambda>u. True) ?history (sample_listener, sample_page)"
  have h1: "SocketListener_new (\<lambda>u. True) ''wss://x/y'' sample_map page0
              = (Inr sample_listener, sample_page)"
    by code_simp
  have h2: "do_steps (\<lambda>u. True) ?history (sample_listener, sample_page) = (fst ?cfg, snd ?cfg)"
    by simp
  have h3: "1 < length (sockets (snd ?cfg))" by code_simp
  have h4: "ev_type close_event = ''close''" by code_simp
  have t: "timers (snd ?cfg) = [(10000, InitConnection)]" by code_simp
  from close_event_schedules_one_reconnect [OF h1 h2 h3 h4] h1 h3 h4 t
  show ?thesis by (simp add: Let_def)
qed

text \<open>
  C9. For a SocketListener after any history: \<^verbatim>\<open>close()\<close> marks the current socket as
  asked to close and changes nothing else on the page, so the pending timers stay; and
  the close event that follows on that socket still schedules one reconnect. Where no
  socket is set, \<^verbatim>\<open>close()\<close> changes nothing at all.
\<close>

theorem close_keeps_timers_and_reconnects:
  assumes "SocketListener_new accepts u cbs page0 = (Inr this0, b0)"
    and "do_steps accepts history (this0, b0) = (this, b)"
    and "ev_type ev = ''close''"
  shows "(\<forall>that c. socket that = None \<longrightarrow> close that c = c)
       \<and> (\<exists>h. socket this = Some h \<and> h < length (sockets b)
              \<and> close this b
                  = b\<lparr>sockets := (sockets b)[h := (sockets b ! h)\<lparr>ws_close_called := True\<rparr>]\<rparr>
              \<and> timers (close this b) = timers b
              \<and> timers (dispatchEvent h ev this (close this b))
                  = timers b @ [(10000, InitConnection)])"
proof -
  from wired_new [OF assms(1)] have "wired accepts this0 b0" by simp
  from wired_do_steps [OF this assms(2)] have w: "wired accepts this b" .
  then obtain h where h: "socket this = Some h" "h < length (sockets b)"
    by (auto simp: wired_def)
  have c: "close this b
             = b\<lparr>sockets := (sockets b)[h := (sockets b ! h)\<lparr>ws_close_called := True\<rparr>]\<rparr>"
    using h by (simp add: close_def)
  have hc: "h < length (sockets (close this b))" using h by simp
  from wired_close_event [OF wired_close [OF w] hc assms(3)]
  have "timers (dispatchEvent h ev this (close this b)) = timers b @ [(10000, InitConnection)]"
    by simp
  with h c show ?thesis by (simp add: close_def)
qed

theorem close_keeps_timers_and_reconnects_witness:
  "(let cfg = do_steps (\<lambda>u. True) [Deliver 0 close_event] (sample_listener, sample_page)
    in SocketListener_new (\<lambda>u. True) ''wss://x/y'' sample_map page0
         = (Inr sample_listener, sample_page)
     \<and> ev_type close_event = ''close''
     \<and> socket (sample_listener\<lparr>socket := None\<rparr>) = None
     \<and> close (sample_listener\<lparr>socket := None\<rparr>) sample_page = sample_page
     \<and> socket (fst cfg) = Some 0
     \<and> timers (snd cfg) = [(10000, InitConnection)]
     \<and> ws_close_called (sockets (close (fst cfg) (snd cfg)) ! 0)
     \<and> timers (close (fst cfg) (snd cfg)) = [(10000, InitConnection)]
     \<and> timers (dispatchEvent 0 close_event (fst cfg) (close (fst cfg) (snd cfg)))
         = [(10000, InitConnection), (10000, InitConnection)])"
proof -
  let ?cfg = "do_steps (\<lambda>u. True) [Deliver 0 close_event] (sample_listener, sample_page)"
  have h1: "SocketListener_new (\<lambda>u. True) ''wss://x/y'' sample_map page0
              = (Inr sample_listener, sample_page)"
    by code_simp
  have h2: "do_steps (\<lambda>u. True) [Deliver 0 close_event] (sample_listener, sample_page)
              = (fst ?cfg, snd ?cfg)"
    by simp
  have h3: "ev_type close_event = ''close''" by code_simp
  have n: "socket (sample_listener\<lparr>socket := None\<rparr>) = None" by simp
  have s: "socket (fst ?cfg) = Some 0" by code_simp
  have t: "timers (snd ?cfg) = [(10000, InitConnection)]" by code_simp
  have k: "ws_close_called (sockets (close (fst ?cfg) (snd ?cfg)) ! 0)" by code_simp
  from close_keeps_timers_and_reconnects [OF h1 h2 h3] h1 h3 n s t k
  show ?thesis by (auto simp: Let_def)
qed

subsection \<open>Which function a listener calls\<close>

text \<open>
  C4. What the code does after \<^verbatim>\<open>StateListener.run()\<close>, whose callback map is
  \<^verbatim>\<open>{open, close, message}\<close>: the three listeners of the map share one variable, which
  holds the message forwarder once the loop is over. A close event on the socket then
  calls the message forwarder and the reconnecting listener; the close forwarder of the
  map is never called.
\<close>

theorem run_close_event_calls_message_forwarder:
  "(case run (\<lambda>u. True)
           \<lparr>listener_url = ''wss://x/y'', stateChangeCallback = Some 0,
             state = JObj [] :: int jsval, socketListener = None\<rparr> page0 of
      (c, this, b) \<Rightarrow>
        (case socketListener this of
           None \<Rightarrow> False
         | Some sl \<Rightarrow>
             c = Normal
           \<and> callbacks sl = Some [(''open'', Forward ''open''), (''close'', Forward ''close''),
                                  (''message'', Forward ''message'')]
           \<and> ws_listeners (sockets b ! 0)
               = [(''open'', 0), (''close'', 0), (''message'', 0), (''close'', 1)]
           \<and> cells b = [Some (Supplied (Forward ''message'')), Some Reconnect]
           \<and> trace (dispatchEvent 0 close_event sl b)
               = trace b @ [Invoke (Forward ''message'') close_event,
                            DebugClosed ''wss://x/y'' 10]))"
  by code_simp

text \<open>
  C8. What the code does when \<^verbatim>\<open>addListeners\<close> gets the defined map
  \<^verbatim>\<open>{close: f1, message: f2}\<close> on a connected SocketListener: it returns normally and
  the socket has one more listener for each key, but both read the same variable, which
  holds \<^verbatim>\<open>f2\<close>. A close event calls the reconnecting listener and \<^verbatim>\<open>f2\<close>; \<^verbatim>\<open>f1\<close> is
  attached to nothing.
\<close>

theorem addListeners_calls_last_entry:
  "(case SocketListener_new (\<lambda>u. True) ''wss://x/y'' (Some []) page0 of
      (Inl e, b) \<Rightarrow> False
    | (Inr this, b) \<Rightarrow>
        (case addListeners (Some [(''close'', Supplied (Caller 1)),
                                  (''message'', Supplied (Caller 2))]) this b of
           (c, b') \<Rightarrow>
             c = Normal
           \<and> ws_listeners (sockets b' ! 0) = [(''close'', 1), (''close'', 2), (''message'', 2)]
           \<and> cells b' = [None, Some Reconnect, Some (Supplied (Caller 2))]
           \<and> trace (dispatchEvent 0 close_event this b')
               = trace b' @ [DebugClosed ''wss://x/y'' 10, Invoke (Caller 2) close_event]))"
  by code_simp

subsection \<open>Construction of a StateListener\<close>

text \<open>
  C5. Constructing a StateListener gives an object with the URL, the callback, the
  empty object as snapshot and no SocketListener, and leaves the page as it was: no
  socket, listener or timer is made. \<^verbatim>\<open>run()\<close>, for a URL the platform takes, makes
  exactly one new socket, for that URL, and stores the SocketListener that owns it.
\<close>

theorem StateListener_connects_only_on_run:
  assumes "StateListener_new u f b = (this, b1)"
    and "accepts u"
  shows "this = \<lparr>listener_url = u, stateChangeCallback = f, state = JObj [],
                 socketListener = None\<rparr>
       \<and> b1 = b
       \<and> (\<exists>sl b'. run accepts this b1 = (Normal, this\<lparr>socketListener := Some sl\<rparr>, b')
              \<and> url sl = u \<and> socket sl = Some (length (sockets b))
              \<and> length (sockets b') = Suc (length (sockets b))
              \<and> take (length (sockets b)) (sockets b') = sockets b
              \<and> ws_url (sockets b' ! length (sockets b)) = u)"
proof -
  from assms(1) have t: "this = \<lparr>listener_url = u, stateChangeCallback = f, state = JObj [],
                 socketListener = None\<rparr>" and b1: "b1 = b"
    by (simp_all add: StateListener_new_def)
  let ?m = "Some [(''open'', Forward ''open''), (''close'', Forward ''close''),
                  (''message'', Forward ''message'')]"
  let ?t = "\<lparr>url = u, callbacks = ?m, closed_repeat_delay = 10, socket = None\<rparr>"
  have a: "accepts (url ?t)" using assms(2) by simp
  show ?thesis
    unfolding t b1 run_def SocketListener_new_def
    by (simp add: initConnection_accepted [of accepts ?t, OF a] nth_append)
qed

theorem StateListener_connects_only_on_run_witness:
  "(let this = \<lparr>listener_url = ''wss://x/y'', stateChangeCallback = Some 0,
                 state = JObj [] :: int jsval, socketListener = None\<rparr>
    in StateListener_new ''wss://x/y'' (Some 0) sample_page = (this, sample_page)
     \<and> (\<lambda>u. u = ''wss://x/y'') ''wss://x/y''
     \<and> length (sockets sample_page) = 1
     \<and> length (sockets (snd (snd (run (\<lambda>u. u = ''wss://x/y'') this sample_page)))) = 2)"
proof -
  let ?st = "\<lparr>listener_url = ''wss://x/y'', stateChangeCallback = Some 0,
                 state = JObj [] :: int jsval, socketListener = None\<rparr>"
  have h1: "StateListener_new ''wss://x/y'' (Some 0) sample_page = (?st, sample_page)"
    by (simp add: StateListener_new_def)
  have h2: "(\<lambda>u. u = ''wss://x/y'') ''wss://x/y''" by simp
  have l: "length (sockets sample_page) = 1" by (simp add: sample_page_def)
  from StateListener_connects_only_on_run [of "''wss://x/y''" "Some 0" sample_page ?st sample_page
      "\<lambda>u. u = ''wss://x/y''", OF h1 h2] h1 l
  show ?thesis by (auto simp: Let_def)
qed

subsection \<open>The dispatcher of StateListener\<close>

text \<open>
  C1. A message event whose text parses to an object with \<^verbatim>\<open>event\<close> equal to the string
  \<^verbatim>\<open>"state"\<close> and \<^verbatim>\<open>data\<close> equal to \<open>X\<close>, dispatched with type \<^verbatim>\<open>"message"\<close>: the call
  returns normally, the snapshot is \<open>X\<close> afterwards, and a defined callback is called
  exactly once, with \<open>X\<close> (an undefined one gives one informational log line instead).
\<close>

theorem state_message_stores_and_reports:
  assumes "JSON_parse (ev_data event) = Some (JObj own)"
    and "map_of own ''event'' = Some (JStr ''state'')"
    and "map_of own ''data'' = Some X"
    and "ev_type event = ''message''"
  shows "genericEventListener JSON_parse ''message'' event this =
           (Normal, this\<lparr>state := X\<rparr>,
            case stateChangeCallback this of
              Some f \<Rightarrow> [StateChange f X]
            | None \<Rightarrow> [ConsoleInfo X])"
  using assms
  by (simp add: genericEventListener_def handleStateUpdate_def Let_def split: option.split)

theorem state_message_stores_and_reports_witness:
  \<open>(let P = (\<lambda>s. if s = ''{"event":"state","data":{"phase":"ready"}}''
                  then Some (JObj [(''event'', JStr ''state''),
                                   (''data'', JObj [(''phase'', JStr ''ready'')])])
                  else None);
        ev = \<lparr>ev_type = ''message'', ev_data = ''{"event":"state","data":{"phase":"ready"}}''\<rparr>;
        this = \<lparr>listener_url = ''wss://x/y'', stateChangeCallback = Some 0,
                state = JObj [], socketListener = None\<rparr>
    in genericEventListener P ''message'' ev this =
         (Normal, this\<lparr>state := JObj [(''phase'', JStr ''ready'')]\<rparr>,
          [StateChange 0 (JObj [(''phase'', JStr ''ready'') :: string \<times> int jsval])]))\<close>
proof -
  let ?X = "JObj [(''phase'', JStr ''ready'')] :: int jsval"
  let ?own = "[(''event'', JStr ''state''), (''data'', ?X)]"
  let ?P = \<open>\<lambda>s. if s = ''{"event":"state","data":{"phase":"ready"}}''
                 then Some (JObj ?own) else None\<close>
  let ?ev = \<open>\<lparr>ev_type = ''message'',
               ev_data = ''{"event":"state","data":{"phase":"ready"}}''\<rparr>\<close>
  have h1: "?P (ev_data ?ev) = Some (JObj ?own)" by simp
  have h2: "map_of ?own ''event'' = Some (JStr ''state'')" by simp
  have h3: "map_of ?own ''data'' = Some ?X" by simp
  have h4: "ev_type ?ev = ''message''" by simp
  show ?thesis
    using state_message_stores_and_reports [of ?P ?ev ?own ?X, OF h1 h2 h3 h4]
    by (simp add: Let_def)
qed

text \<open>
  C2. What the code does with a close dispatch, for any parser, event and instance: it
  raises a ReferenceError, calls no callback, logs nothing and leaves the snapshot as it
  was. The string \<^verbatim>\<open>"closed"\<close> reaches neither the callback nor the snapshot.
\<close>

theorem close_dispatch_raises:
  "genericEventListener JSON_parse ''close'' event this = (Throw ReferenceError, this, [])"
  by (simp add: genericEventListener_def)

text \<open>
  C6. A payload that parses to an object whose \<^verbatim>\<open>event\<close> is anything but the string
  \<^verbatim>\<open>"state"\<close> (or is missing): however it is dispatched, no callback is called, nothing
  is logged and the snapshot stays; dispatched as a message, the call returns normally.
\<close>

theorem other_event_kinds_ignored:
  assumes "JSON_parse (ev_data event) = Some (JObj own)"
    and "map_of own ''event'' \<noteq> Some (JStr ''state'')"
  shows "snd (genericEventListener JSON_parse type event this) = (this, [])
       \<and> genericEventListener JSON_parse ''message'' event this = (Normal, this, [])"
  using assms
  by (auto simp add: genericEventListener_def split: option.split)

theorem other_event_kinds_ignored_witness:
  \<open>(let own = [(''event'', JStr ''status''), (''data'', JNum (1::int))];
        P = (\<lambda>s. if s = ''{"event":"status","data":1}'' then Some (JObj own) else None);
        ev = \<lparr>ev_type = ''message'', ev_data = ''{"event":"status","data":1}''\<rparr>;
        this = \<lparr>listener_url = ''wss://x/y'', stateChangeCallback = Some 0,
                state = JObj [], socketListener = None\<rparr>
    in P (ev_data ev) = Some (JObj own)
     \<and> map_of own ''event'' \<noteq> Some (JStr ''state'')
     \<and> genericEventListener P ''message'' ev this = (Normal, this, []))\<close>
proof -
  let ?own = "[(''event'', JStr ''status''), (''data'', JNum (1::int))]"
  let ?P = \<open>\<lambda>s. if s = ''{"event":"status","data":1}'' then Some (JObj ?own) else None\<close>
  let ?ev = \<open>\<lparr>ev_type = ''message'', ev_data = ''{"event":"status","data":1}''\<rparr>\<close>
  have h1: "?P (ev_data ?ev) = Some (JObj ?own)" by simp
  have h2: "map_of ?own ''event'' \<noteq> Some (JStr ''state'')" by simp
  show ?thesis
    using other_event_kinds_ignored [of ?P ?ev ?own, OF h1 h2] h1 h2
    by (simp add: Let_def)
qed

text \<open>
  C7. A message event whose text the parser rejects, dispatched as a message: the
  SyntaxError leaves the dispatcher (nothing in it catches), no callback is called,
  nothing is logged and the snapshot stays.
\<close>

theorem malformed_payload_raises:
  assumes "JSON_parse (ev_data event) = None"
    and "ev_type event = ''message''"
  shows "genericEventListener JSON_parse ''message'' event this = (Throw SyntaxError, this, [])"
  using assms by (simp add: genericEventListener_def)

theorem malformed_payload_raises_witness:
  \<open>(let P = (\<lambda>s. if s = ''{"event":"state","data":1}''
                  then Some (JObj [(''event'', JStr ''state''), (''data'', JNum (1::int))])
                  else None);
        ev = \<lparr>ev_type = ''message'', ev_data = ''{"event":''\<rparr>;
        this = \<lparr>listener_url = ''wss://x/y'', stateChangeCallback = Some 0,
                state = JObj [], socketListener = None\<rparr>
    in P (ev_data ev) = None
     \<and> genericEventListener P ''message'' ev this = (Throw SyntaxError, this, []))\<close>
proof -
  let ?P = \<open>\<lambda>s. if s = ''{"event":"state","data":1}''
                 then Some (JObj [(''event'', JStr ''state''), (''data'', JNum (1::int))])
                 else None\<close>
  let ?ev = \<open>\<lparr>ev_type = ''message'', ev_data = ''{"event":''\<rparr>\<close>
  have h1: "?P (ev_data ?ev) = None" by simp
  have h2: "ev_type ?ev = ''message''" by simp
  show ?thesis
    using malformed_payload_raises [of ?P ?ev, OF h1 h2] h1
    by (simp add: Let_def)
qed

text \<open>
  C10. A dispatch with type \<^verbatim>\<open>"open"\<close>, or with type \<^verbatim>\<open>"message"\<close> for an event whose
  own type is not \<^verbatim>\<open>"message"\<close>, returns normally with the instance as it was and
  nothing called or logged; this holds for every parser, also one that rejects every
  text, so the parser is not consulted.
\<close>

theorem non_message_events_ignored:
  "genericEventListener JSON_parse ''open'' event this = (Normal, this, [])
   \<and> (ev_type event \<noteq> ''message'' \<longrightarrow>
        genericEventListener JSON_parse ''message'' event this = (Normal, this, []))"
  by (simp add: genericEventListener_def)

theorem non_message_events_ignored_witness:
  \<open>(let ev = \<lparr>ev_type = ''close'', ev_data = ''{"event":"state","data":1}''\<rparr>;
        this = \<lparr>listener_url = ''wss://x/y'', stateChangeCallback = Some 0,
                state = JObj [] :: int jsval, socketListener = None\<rparr>
    in ev_type ev \<noteq> ''message''
     \<and> genericEventListener (\<lambda>s. None) ''open'' ev this = (Normal, this, [])
     \<and> genericEventListener (\<lambda>s. None) ''message'' ev this = (Normal, this, []))\<close>
proof -
  let ?ev = \<open>\<lparr>ev_type = ''close'', ev_data = ''{"event":"state","data":1}''\<rparr>\<close>
  have h: "ev_type ?ev \<noteq> ''message''" by simp
  show ?thesis
    using non_message_events_ignored [of "\<lambda>s. None" ?ev] h
    by (simp add: Let_def)
qed

end
